theory Spec2Isabelle
  imports Complex_Main "HOL-Library.Sublist"
begin

section \<open>Text primitives of the Python source\<close>

text \<open>
  Python strings are modelled as \<^typ>\<open>string\<close>, one \<^typ>\<open>char\<close> per character; the case
  mappings and the whitespace class are those of Python restricted to ASCII (characters
  outside ASCII are left alone by \<open>upper\<close>/\<open>lower\<close> and are never whitespace).
\<close>

definition is_space :: "char \<Rightarrow> bool" where
  \<comment> \<open>\<open>str.isspace\<close> on ASCII: TAB, LF, VT, FF, CR, FS, GS, RS, US and the blank.\<close>
  "is_space c = (c \<in> set [CHR 0x09, CHR 0x0A, CHR 0x0B, CHR 0x0C, CHR 0x0D,
                            CHR 0x1C, CHR 0x1D, CHR 0x1E, CHR 0x1F, CHR '' ''])"

definition lower_letters :: string where
  "lower_letters = ''abcdefghijklmnopqrstuvwxyz''"

definition upper_letters :: string where
  "upper_letters = ''ABCDEFGHIJKLMNOPQRSTUVWXYZ''"

definition upper_char :: "char \<Rightarrow> char" where
  "upper_char c = (case map_of (zip lower_letters upper_letters) c of Some u \<Rightarrow> u | None \<Rightarrow> c)"

definition lower_char :: "char \<Rightarrow> char" where
  "lower_char c = (case map_of (zip upper_letters lower_letters) c of Some l \<Rightarrow> l | None \<Rightarrow> c)"

definition upper :: "string \<Rightarrow> string" where
  \<comment> \<open>\<open>str.upper()\<close>\<close>
  "upper s = map upper_char s"

definition lower :: "string \<Rightarrow> string" where
  \<comment> \<open>\<open>str.lower()\<close>\<close>
  "lower s = map lower_char s"

definition strip :: "string \<Rightarrow> string" where
  \<comment> \<open>\<open>str.strip()\<close>: leading and trailing whitespace removed.\<close>
  "strip s = rev (dropWhile is_space (rev (dropWhile is_space s)))"

fun starts_with :: "string \<Rightarrow> string \<Rightarrow> bool" where
  \<comment> \<open>\<open>starts_with p s\<close>: \<open>s.startswith(p)\<close>\<close>
  "starts_with [] s = True"
| "starts_with (x # xs) [] = False"
| "starts_with (x # xs) (y # ys) = (x = y \<and> starts_with xs ys)"

fun str_in :: "string \<Rightarrow> string \<Rightarrow> bool" where
  \<comment> \<open>\<open>str_in w s\<close>: Python's \<open>w in s\<close> on strings (substring containment).\<close>
  "str_in w [] = (w = [])"
| "str_in w (y # ys) = (starts_with w (y # ys) \<or> str_in w ys)"

definition any_in :: "string list \<Rightarrow> string \<Rightarrow> bool" where
  \<comment> \<open>\<open>any(word in s for word in words)\<close>\<close>
  "any_in ws s = list_ex (\<lambda>word. str_in word s) ws"


section \<open>Intent classification: \<open>detect_user_intent\<close>\<close>

text \<open>
  The completion text comes from the external \<open>call_claude\<close>; it is the argument
  \<open>completion\<close> of the model. The source strips and upper-cases it and then tests the three
  keywords in order.
\<close>

definition detect_user_intent :: "string \<Rightarrow> string" where
  "detect_user_intent completion =
     (let response = upper (strip completion) in
      if str_in ''CALENDAR'' response then ''CALENDAR''
      else if str_in ''EMAIL'' response then ''EMAIL''
      else if str_in ''ANALYSIS'' response then ''ANALYSIS''
      else ''KNOWLEDGE'')"


section \<open>Calendar time window: \<open>extract_time_context\<close>\<close>

definition extract_time_context :: "string \<Rightarrow> int" where
  "extract_time_context message =
     (let message_lower = lower message in
      if any_in [''today'', ''this morning'', ''this afternoon''] message_lower then 1
      else if any_in [''tomorrow'', ''next day''] message_lower then 2
      else if any_in [''this week'', ''week''] message_lower then 7
      else if any_in [''next week''] message_lower then 14
      else if any_in [''month'', ''this month''] message_lower then 30
      else 7)"


section \<open>The chunker: \<open>chunk_text\<close>\<close>

definition is_terminal :: "char \<Rightarrow> bool" where
  \<comment> \<open>the class \<open>[.!?]\<close> of the sentence pattern\<close>
  "is_terminal c = (c \<in> set ''.!?'')"

text \<open>
  \<open>re.split(r'(?<=[.!?])\s+', text)\<close>: a separator is a maximal run of whitespace that
  directly follows a terminal character. \<open>piece\<close> collects the characters of the current
  piece; the text after the last separator (possibly empty) is the last piece.
\<close>

function re_split :: "string \<Rightarrow> string \<Rightarrow> string list" where
  "re_split piece [] = [piece]"
| "re_split piece (c # cs) =
     (if is_terminal c \<and> cs \<noteq> [] \<and> is_space (hd cs)
      then (piece @ [c]) # re_split [] (dropWhile is_space cs)
      else re_split (piece @ [c]) cs)"
  by pat_completeness auto
termination
  by (relation "measure (\<lambda>(piece, s). length s)")
     (auto simp: le_imp_less_Suc length_dropWhile_le)

fun split_words :: "string \<Rightarrow> string \<Rightarrow> string list" where
  "split_words w [] = (if w = [] then [] else [w])"
| "split_words w (c # cs) =
     (if is_space c then (if w = [] then split_words [] cs else w # split_words [] cs)
      else split_words (w @ [c]) cs)"

definition py_split :: "string \<Rightarrow> string list" where
  \<comment> \<open>\<open>str.split()\<close>: the maximal runs of non-whitespace characters\<close>
  "py_split s = split_words [] s"

fun join_space :: "string list \<Rightarrow> string" where
  \<comment> \<open>\<open>" ".join(words)\<close>\<close>
  "join_space [] = []"
| "join_space [w] = w"
| "join_space (w # v # ws) = w @ '' '' @ join_space (v # ws)"

definition slice_from :: "'a list \<Rightarrow> int \<Rightarrow> 'a list" where
  \<comment> \<open>the slice \<open>xs[start:]\<close>: a negative start counts from the end and is clipped at 0\<close>
  "slice_from xs start =
     (if start < 0 then drop (nat (int (length xs) + start)) xs else drop (nat start) xs)"

text \<open>
  Lines 116-117. Python parses \<open>-overlap//5\<close> as \<open>(-overlap)//5\<close> (the unary minus binds
  tighter than \<open>//\<close>), and \<open>//\<close> is floor division, which is \<open>div\<close> on \<^typ>\<open>int\<close>.
\<close>

definition overlap_tail :: "string \<Rightarrow> int \<Rightarrow> string list" where
  "overlap_tail current_chunk overlap =
     (let words = py_split current_chunk in
      if int (length words) > overlap div 5
      then slice_from words ((- overlap) div 5) else words)"

definition spec_overlap_tail :: "string \<Rightarrow> int \<Rightarrow> string list" where
  \<comment> \<open>the overlap tail in the specification's words: the last \<open>overlap/5\<close> words of the
      closed buffer, or all of its words if it has fewer\<close>
  "spec_overlap_tail current_chunk overlap =
     (let words = py_split current_chunk; n = nat (overlap div 5) in
      if length words > n then drop (length words - n) words else words)"

fun chunk_loop ::
  "int \<Rightarrow> int \<Rightarrow> string list \<Rightarrow> string list \<Rightarrow> string \<Rightarrow> string list \<times> string" where
  "chunk_loop chunk_size overlap [] chunks current_chunk = (chunks, current_chunk)"
| "chunk_loop chunk_size overlap (sentence # rest) chunks current_chunk =
     (if int (length current_chunk) + int (length sentence) > chunk_size \<and> current_chunk \<noteq> []
      then chunk_loop chunk_size overlap rest (chunks @ [strip current_chunk])
             (join_space (overlap_tail current_chunk overlap) @ '' '' @ sentence)
      else chunk_loop chunk_size overlap rest chunks
             (if current_chunk \<noteq> [] then current_chunk @ '' '' @ sentence else sentence))"

text \<open>
  The loop once more, recording for every buffer that is closed, and for the buffer left
  at the end, its \<open>body\<close>: the buffer without the overlap prefix that was put before its
  first sentence.
\<close>

fun chunk_trace ::
  "int \<Rightarrow> int \<Rightarrow> string list \<Rightarrow> string \<Rightarrow> string \<Rightarrow> (string \<times> string) list" where
  "chunk_trace chunk_size overlap [] current_chunk body = [(current_chunk, body)]"
| "chunk_trace chunk_size overlap (sentence # rest) current_chunk body =
     (if int (length current_chunk) + int (length sentence) > chunk_size \<and> current_chunk \<noteq> []
      then (current_chunk, body)
           # chunk_trace chunk_size overlap rest
               (join_space (overlap_tail current_chunk overlap) @ '' '' @ sentence) sentence
      else chunk_trace chunk_size overlap rest
             (if current_chunk \<noteq> [] then current_chunk @ '' '' @ sentence else sentence)
             (if current_chunk \<noteq> [] then body @ '' '' @ sentence else sentence))"

definition chunk_text :: "string \<Rightarrow> int \<Rightarrow> int \<Rightarrow> string list" where
  "chunk_text text chunk_size overlap =
     (let sentences = re_split [] text;
          (chunks, current_chunk) = chunk_loop chunk_size overlap sentences [] []
      in if strip current_chunk \<noteq> [] then chunks @ [strip current_chunk] else chunks)"


section \<open>The knowledge base: \<open>build_vector_index\<close> and \<open>search_knowledge_base\<close>\<close>

text \<open>
  The agent's fields that the retrieval code reads or writes. \<open>documents\<close> is the SQLite
  table, in insertion order; \<open>vector_index\<close> is \<open>None\<close> until a build finds a row, and
  otherwise holds the indexed vectors in build order. Scores are the real numbers that the
  finite floats denote.
\<close>

datatype py_error = IndexError | JSONDecodeError

record doc_row =
  row_id :: int
  row_title :: string
  row_content :: string
  row_source :: string
  row_chunk_id :: int
  row_metadata :: "string option"

record 'j search_result =
  res_content :: string
  res_title :: string
  res_source :: string
  res_metadata :: 'j
  relevance_score :: real

record ('j, 't) search_info =
  info_query :: string
  info_results :: "'j search_result list"
  info_timestamp :: 't

record ('v, 'j, 't) agent =
  documents :: "doc_row list"
  vector_index :: "'v list option"
  document_chunks :: "(int \<times> string) list"
  recent_knowledge_searches :: "('j, 't) search_info list"

text \<open>
  The libraries behind the retrieval code are parameters of the model:
  \<open>encode\<close> is \<open>SentenceTransformer.encode\<close>, \<open>normalize_L2\<close> the FAISS row normalisation,
  \<open>index_search idx q k\<close> the rows \<open>zip(scores[0], indices[0])\<close> of
  \<open>IndexFlatIP.search\<close> for the query vector \<open>q\<close>, \<open>json_loads\<close> is \<open>json.loads\<close>
  (\<open>None\<close> when it raises) and \<open>format_3f\<close> renders a score as \<open>:.3f\<close> does.
\<close>

record ('v, 'j) ports =
  encode :: "string \<Rightarrow> 'v"
  normalize_L2 :: "'v \<Rightarrow> 'v"
  index_search :: "'v list \<Rightarrow> 'v \<Rightarrow> int \<Rightarrow> (real \<times> int) list"
  json_loads :: "string \<Rightarrow> 'j option"
  format_3f :: "real \<Rightarrow> string"

definition build_vector_index ::
  "('v, 'j) ports \<Rightarrow> ('v, 'j, 't) agent \<Rightarrow> ('v, 'j, 't) agent" where
  "build_vector_index P s =
     (let rows = sort_key row_id (documents s);
          chunks = map (\<lambda>r. (row_id r, row_content r)) rows;
          embeddings = map (\<lambda>r. encode P (row_content r)) rows
      in if embeddings \<noteq> []
         then s\<lparr>document_chunks := chunks,
                vector_index := Some (map (normalize_L2 P) embeddings)\<rparr>
         else s\<lparr>document_chunks := chunks\<rparr>)"

definition init_agent :: "('v, 'j) ports \<Rightarrow> doc_row list \<Rightarrow> ('v, 'j, 't) agent" where
  \<comment> \<open>\<open>__init__\<close> on a database that holds \<open>rows\<close>\<close>
  "init_agent P rows =
     build_vector_index P
       \<lparr>documents = rows, vector_index = None, document_chunks = [],
        recent_knowledge_searches = []\<rparr>"

definition next_id :: "doc_row list \<Rightarrow> int" where
  \<comment> \<open>\<open>INTEGER PRIMARY KEY AUTOINCREMENT\<close> on a table without deletions\<close>
  "next_id rows = fold max (map row_id rows) 0 + 1"

fun insert_chunks ::
  "string \<Rightarrow> string \<Rightarrow> string \<Rightarrow> doc_row list \<Rightarrow> (nat \<times> string) list \<Rightarrow> doc_row list" where
  "insert_chunks title source metadata_json rows [] = rows"
| "insert_chunks title source metadata_json rows ((i, chunk) # rest) =
     insert_chunks title source metadata_json
       (rows @ [\<lparr>row_id = next_id rows, row_title = title, row_content = chunk,
                 row_source = source, row_chunk_id = int i,
                 row_metadata = Some metadata_json\<rparr>])
       rest"

definition add_document ::
  "('v, 'j) ports \<Rightarrow> ('v, 'j, 't) agent \<Rightarrow> string \<Rightarrow> string \<Rightarrow> string \<Rightarrow> string \<Rightarrow>
   ('v, 'j, 't) agent" where
  \<comment> \<open>\<open>metadata_json\<close> is the text \<open>json.dumps(metadata or {})\<close>\<close>
  "add_document P s title content source metadata_json =
     (let chunks = chunk_text content 1200 150 in
      build_vector_index P
        (s\<lparr>documents :=
             insert_chunks title source metadata_json (documents s) (enumerate 0 chunks)\<rparr>))"

definition list_index :: "'a list \<Rightarrow> int \<Rightarrow> py_error + 'a" where
  \<comment> \<open>\<open>xs[i]\<close>: a negative index counts from the end; out of range raises\<close>
  "list_index xs i =
     (if 0 \<le> i \<and> i < int (length xs) then Inr (xs ! nat i)
      else if i < 0 \<and> - int (length xs) \<le> i then Inr (xs ! nat (int (length xs) + i))
      else Inl IndexError)"

definition fetch_metadata :: "doc_row list \<Rightarrow> int \<Rightarrow> (string \<times> string \<times> string option) option" where
  \<comment> \<open>\<open>SELECT title, source, metadata FROM documents WHERE id = ?\<close> and \<open>fetchone()\<close>\<close>
  "fetch_metadata rows doc_id =
     map_option (\<lambda>r. (row_title r, row_source r, row_metadata r))
       (find (\<lambda>r. row_id r = doc_id) rows)"

definition or_empty_object :: "string option \<Rightarrow> string" where
  \<comment> \<open>\<open>metadata_json or '{}'\<close>\<close>
  "or_empty_object m = (case m of None \<Rightarrow> ''{}'' | Some t \<Rightarrow> if t = [] then ''{}'' else t)"

fun collect_results ::
  "('v, 'j) ports \<Rightarrow> ('v, 'j, 't) agent \<Rightarrow> real \<Rightarrow> (real \<times> int) list \<Rightarrow>
   'j search_result list \<Rightarrow> py_error + 'j search_result list" where
  "collect_results P s min_score [] acc = Inr acc"
| "collect_results P s min_score ((score, idx) # hits) acc =
     (if idx < int (length (document_chunks s)) \<and> score > min_score
      then (case list_index (document_chunks s) idx of
              Inl e \<Rightarrow> Inl e
            | Inr (doc_id, chunk) \<Rightarrow>
                (case fetch_metadata (documents s) doc_id of
                   None \<Rightarrow> collect_results P s min_score hits acc
                 | Some (t, src, metadata_json) \<Rightarrow>
                     (case json_loads P (or_empty_object metadata_json) of
                        None \<Rightarrow> Inl JSONDecodeError
                      | Some md \<Rightarrow>
                          collect_results P s min_score hits
                            (acc @ [\<lparr>res_content = chunk, res_title = t, res_source = src,
                                      res_metadata = md, relevance_score = score\<rparr>]))))
      else collect_results P s min_score hits acc)"

definition digit_char :: "nat \<Rightarrow> char" where
  "digit_char d = ''0123456789'' ! d"

fun show_nat :: "nat \<Rightarrow> string" where
  "show_nat n = (if n < 10 then [digit_char n] else show_nat (n div 10) @ [digit_char (n mod 10)])"

definition empty_message :: string where
  "empty_message = ''Knowledge base is empty. Please add some documents first.''"

definition no_match_message :: string where
  "no_match_message = ''No relevant information found in the knowledge base.''"

definition format_result :: "('v, 'j) ports \<Rightarrow> nat \<times> 'j search_result \<Rightarrow> string" where
  "format_result P = (\<lambda>(i, r).
     ''Source '' @ show_nat i @ '': '' @ res_title r @ [CHR 0x0A]
     @ ''Content: '' @ res_content r @ [CHR 0x0A]
     @ ''Relevance: '' @ format_3f P (relevance_score r) @ [CHR 0x0A, CHR 0x0A])"

definition format_results :: "('v, 'j) ports \<Rightarrow> 'j search_result list \<Rightarrow> string" where
  "format_results P rs =
     ''Relevant Information Found:'' @ [CHR 0x0A, CHR 0x0A]
     @ concat (map (format_result P) (zip [1 ..< Suc (length rs)] rs))"

text \<open>
  Line 166 normalises the temporary array that \<open>astype\<close> returns and drops it, so the
  search of line 168 receives the query vector as encoded. \<open>now\<close> is the value of
  \<open>datetime.now()\<close> at the call. The result is the returned text and the agent after the
  call, or the exception that left the call.
\<close>

definition search_hits ::
  "('v, 'j) ports \<Rightarrow> ('v, 'j, 't) agent \<Rightarrow> string \<Rightarrow> int \<Rightarrow> (real \<times> int) list" where
  \<comment> \<open>lines 165-168, reached only when \<open>vector_index\<close> is not \<open>None\<close>\<close>
  "search_hits P s query top_k = index_search P (the (vector_index s)) (encode P query) top_k"

definition search_results ::
  "('v, 'j) ports \<Rightarrow> ('v, 'j, 't) agent \<Rightarrow> string \<Rightarrow> int \<Rightarrow> real \<Rightarrow>
   py_error + 'j search_result list" where
  \<comment> \<open>lines 170-189: the list \<open>results\<close> after the loop\<close>
  "search_results P s query top_k min_score =
     collect_results P s min_score (search_hits P s query top_k) []"

definition search_knowledge_base ::
  "('v, 'j) ports \<Rightarrow> 't \<Rightarrow> ('v, 'j, 't) agent \<Rightarrow> string \<Rightarrow> int \<Rightarrow> real \<Rightarrow>
   py_error + (string \<times> ('v, 'j, 't) agent)" where
  "search_knowledge_base P now s query top_k min_score =
     (if vector_index s = None \<or> length (document_chunks s) = 0
      then Inr (empty_message, s)
      else case search_results P s query top_k min_score of
             Inl e \<Rightarrow> Inl e
           | Inr rs \<Rightarrow>
               if rs \<noteq> []
               then Inr (format_results P rs,
                         s\<lparr>recent_knowledge_searches :=
                             slice_from
                               (recent_knowledge_searches s
                                @ [\<lparr>info_query = query, info_results = rs, info_timestamp = now\<rparr>])
                               (- 10)\<rparr>)
               else Inr (no_match_message, s))"


text \<open>
  The agents that the methods of the class can produce: \<open>__init__\<close>, then any sequence of
  \<open>add_document\<close> and \<open>search_knowledge_base\<close> calls.
\<close>

inductive reachable :: "('v, 'j) ports \<Rightarrow> ('v, 'j, 't) agent \<Rightarrow> bool" for P where
  init: "reachable P (init_agent P rows)"
| ingest: "reachable P s \<Longrightarrow> reachable P (add_document P s title content source metadata_json)"
| search: "reachable P s \<Longrightarrow>
           search_knowledge_base P now s query top_k min_score = Inr (reply, s') \<Longrightarrow>
           reachable P s'"


section \<open>A concrete knowledge base\<close>

text \<open>
  A small instance of the ports, used to run the model on concrete inputs. The index
  search is a reference flat inner-product search as FAISS documents \<open>IndexFlatIP\<close>:
  the \<open>k\<close> best rows by decreasing score, and when the index holds fewer than \<open>k\<close>
  vectors the remaining rows carry the label \<open>-1\<close> and the lowest float32 as score.
\<close>

definition float32_lowest :: real where
  "float32_lowest = - 340282346638528859811704183484516925440"

definition inner_product :: "real list \<Rightarrow> real list \<Rightarrow> real" where
  "inner_product x y = sum_list (map2 (*) x y)"

definition flat_ip_search :: "real list list \<Rightarrow> real list \<Rightarrow> int \<Rightarrow> (real \<times> int) list" where
  "flat_ip_search idx q k =
     take (nat k)
       (sort_key (\<lambda>(score, i). - score)
          (zip (map (inner_product q) idx) (map int [0 ..< length idx]))
        @ replicate (nat k) (float32_lowest, - 1))"

definition demo_ports :: "(real list, string) ports" where
  "demo_ports =
     \<lparr>encode = (\<lambda>t. if str_in ''cat'' t then [1, 0] else [0, 1]),
      normalize_L2 = (\<lambda>v. v),
      index_search = flat_ip_search,
      json_loads = Some,
      format_3f = (\<lambda>x. show_nat (nat \<lfloor>x\<rfloor>) @ ''.000'')\<rparr>"

definition cat_row :: doc_row where
  "cat_row = \<lparr>row_id = 1, row_title = ''Pets'', row_content = ''the cat sat.'',
              row_source = ''manual'', row_chunk_id = 0, row_metadata = Some ''{}''\<rparr>"

definition dog_row :: doc_row where
  "dog_row = \<lparr>row_id = 2, row_title = ''Pets'', row_content = ''a dog ran.'',
              row_source = ''manual'', row_chunk_id = 1, row_metadata = Some ''{}''\<rparr>"

definition cat_result :: "real \<Rightarrow> string search_result" where
  "cat_result score = \<lparr>res_content = ''the cat sat.'', res_title = ''Pets'',
     res_source = ''manual'', res_metadata = ''{}'', relevance_score = score\<rparr>"

definition dog_result :: "real \<Rightarrow> string search_result" where
  "dog_result score = \<lparr>res_content = ''a dog ran.'', res_title = ''Pets'',
     res_source = ''manual'', res_metadata = ''{}'', relevance_score = score\<rparr>"

definition demo_agent :: "doc_row list \<Rightarrow> (real list, string, nat) agent" where
  "demo_agent rows = init_agent demo_ports rows"


section \<open>Substring containment\<close>

lemma starts_with_prefix: "starts_with p s = prefix p s"
  by (induction p s rule: starts_with.induct) simp_all

lemma str_in_sublist: "str_in w s = sublist w s"
proof (induction s)
  case Nil
  show ?case by simp
next
  case (Cons y ys)
  show ?case
  proof (cases w)
    case Nil
    then show ?thesis by simp
  next
    case (Cons a as)
    with Cons.IH show ?thesis
      by (simp add: starts_with_prefix sublist_Cons_right del: starts_with.simps)
  qed
qed

lemma str_in_iff: "str_in w s \<longleftrightarrow> (\<exists>before after. s = before @ w @ after)"
  by (simp add: str_in_sublist sublist_def)

lemma sublist_dropWhile:
  assumes "w \<noteq> []" and "\<not> P (hd w)"
  shows "sublist w (dropWhile P s) = sublist w s"
proof (induction s)
  case Nil
  show ?case by simp
next
  case (Cons y ys)
  show ?case
  proof (cases "P y")
    case True
    from assms obtain a as where w: "w = a # as" and a: "\<not> P a"
      by (cases w) auto
    from True a have "a \<noteq> y"
      by auto
    with True Cons.IH show ?thesis
      by (simp add: w sublist_Cons_right)
  next
    case False
    then show ?thesis by simp
  qed
qed

lemma sublist_strip:
  assumes "w \<noteq> []" and "\<not> is_space (hd w)" and "\<not> is_space (last w)"
  shows "sublist w (strip s) = sublist w s"
proof -
  have r: "rev w \<noteq> []" "\<not> is_space (hd (rev w))"
    using assms by (simp_all add: hd_rev)
  have "sublist w (strip s) = sublist (rev w) (dropWhile is_space (rev (dropWhile is_space s)))"
    unfolding strip_def by (metis rev_rev_ident sublist_rev)
  also have "\<dots> = sublist (rev w) (rev (dropWhile is_space s))"
    using r by (rule sublist_dropWhile)
  also have "\<dots> = sublist w (dropWhile is_space s)"
    by (rule sublist_rev)
  also have "\<dots> = sublist w s"
    using assms(1,2) by (rule sublist_dropWhile)
  finally show ?thesis .
qed

lemma is_space_upper_char: "is_space (upper_char c) = is_space c"
proof (cases "map_of (zip lower_letters upper_letters) c")
  case None
  then show ?thesis by (simp add: upper_char_def)
next
  case (Some u)
  then have "(c, u) \<in> set (zip lower_letters upper_letters)"
    by (rule map_of_SomeD)
  then have "\<not> is_space c \<and> \<not> is_space u"
    by (auto simp: lower_letters_def upper_letters_def is_space_def)
  with Some show ?thesis by (simp add: upper_char_def)
qed

lemma upper_dropWhile: "upper (dropWhile is_space s) = dropWhile is_space (upper s)"
  by (induction s) (simp_all add: upper_def is_space_upper_char)

lemma upper_strip: "upper (strip s) = strip (upper s)"
proof -
  have "upper (rev t) = rev (upper t)" for t
    by (simp add: upper_def rev_map)
  then show ?thesis
    by (simp add: strip_def upper_dropWhile)
qed

lemma keyword_in_stripped:
  assumes "w \<noteq> []" and "\<not> is_space (hd w)" and "\<not> is_space (last w)"
  shows "str_in w (upper (strip s)) = str_in w (upper s)"
  using assms by (simp add: str_in_sublist upper_strip sublist_strip)


lemmas text_eval = upper_def lower_def upper_char_def lower_char_def lower_letters_def
  upper_letters_def any_in_def

lemmas chunk_eval = chunk_text_def is_terminal_def is_space_def strip_def py_split_def
  overlap_tail_def slice_from_def

lemmas demo_eval = demo_agent_def init_agent_def build_vector_index_def demo_ports_def
  cat_row_def dog_row_def search_hits_def search_results_def flat_ip_search_def
  inner_product_def float32_lowest_def list_index_def fetch_metadata_def or_empty_object_def
  cat_result_def dog_result_def


section \<open>Claims on classification and time windows\<close>

text \<open>
  C1: for every completion text, classification returns CALENDAR if the upper-cased text
  contains "CALENDAR"; otherwise EMAIL if it contains "EMAIL"; otherwise ANALYSIS if it
  contains "ANALYSIS"; otherwise KNOWLEDGE. In particular a text with both "EMAIL" and
  "CALENDAR" is CALENDAR, and a text with none of the three keywords is KNOWLEDGE.
  Containment is stated on the upper-cased text itself: the \<open>strip()\<close> the source applies
  first cannot remove any part of a keyword occurrence.
\<close>

theorem detect_user_intent_priority:
  "detect_user_intent completion =
     (if (\<exists>before after. upper completion = before @ ''CALENDAR'' @ after) then ''CALENDAR''
      else if (\<exists>before after. upper completion = before @ ''EMAIL'' @ after) then ''EMAIL''
      else if (\<exists>before after. upper completion = before @ ''ANALYSIS'' @ after) then ''ANALYSIS''
      else ''KNOWLEDGE'')
   \<and> (str_in ''EMAIL'' (upper completion) \<and> str_in ''CALENDAR'' (upper completion)
        \<longrightarrow> detect_user_intent completion = ''CALENDAR'')
   \<and> (\<not> str_in ''CALENDAR'' (upper completion) \<and> \<not> str_in ''EMAIL'' (upper completion)
        \<and> \<not> str_in ''ANALYSIS'' (upper completion)
        \<longrightarrow> detect_user_intent completion = ''KNOWLEDGE'')"
proof -
  have c: "str_in ''CALENDAR'' (upper (strip completion)) = str_in ''CALENDAR'' (upper completion)"
    by (rule keyword_in_stripped) (simp_all add: is_space_def)
  have e: "str_in ''EMAIL'' (upper (strip completion)) = str_in ''EMAIL'' (upper completion)"
    by (rule keyword_in_stripped) (simp_all add: is_space_def)
  have a: "str_in ''ANALYSIS'' (upper (strip completion)) = str_in ''ANALYSIS'' (upper completion)"
    by (rule keyword_in_stripped) (simp_all add: is_space_def)
  have d: "detect_user_intent completion =
     (if str_in ''CALENDAR'' (upper completion) then ''CALENDAR''
      else if str_in ''EMAIL'' (upper completion) then ''EMAIL''
      else if str_in ''ANALYSIS'' (upper completion) then ''ANALYSIS''
      else ''KNOWLEDGE'')"
    unfolding detect_user_intent_def Let_def c e a ..
  show ?thesis
    unfolding d by (simp add: str_in_iff)
qed

theorem detect_user_intent_priority_witness:
  "str_in ''EMAIL'' (upper ''Email about the calendar'')
   \<and> str_in ''CALENDAR'' (upper ''Email about the calendar'')
   \<and> detect_user_intent ''Email about the calendar'' = ''CALENDAR''
   \<and> \<not> str_in ''CALENDAR'' (upper ''no idea'') \<and> \<not> str_in ''EMAIL'' (upper ''no idea'')
   \<and> \<not> str_in ''ANALYSIS'' (upper ''no idea'')
   \<and> detect_user_intent ''no idea'' = ''KNOWLEDGE''"
proof -
  have 1: "str_in ''EMAIL'' (upper ''Email about the calendar'')"
    by (simp add: upper_def upper_char_def lower_letters_def upper_letters_def)
  have 2: "str_in ''CALENDAR'' (upper ''Email about the calendar'')"
    by (simp add: upper_def upper_char_def lower_letters_def upper_letters_def)
  have 3: "\<not> str_in ''CALENDAR'' (upper ''no idea'')" "\<not> str_in ''EMAIL'' (upper ''no idea'')"
    "\<not> str_in ''ANALYSIS'' (upper ''no idea'')"
    by (simp_all add: upper_def upper_char_def lower_letters_def upper_letters_def)
  from 1 2 3 detect_user_intent_priority [of "''Email about the calendar''"]
    detect_user_intent_priority [of "''no idea''"]
  show ?thesis by blast
qed


text \<open>
  C4: the time-window inference returns 2 days for "Can we meet tomorrow?", 14 days for
  "anything next week?" and 7 days for "hello". The source returns 2 and 7 for the first
  and the last message, and 7 for "anything next week?": the keyword "week" of the third
  test occurs in every message that contains "next week", so the fourth test is never
  reached.
\<close>

theorem extract_time_context_examples:
  "extract_time_context ''Can we meet tomorrow?'' = 2
   \<and> extract_time_context ''hello'' = 7
   \<and> extract_time_context ''anything next week?'' = 7"
  by (simp add: extract_time_context_def text_eval)

lemma next_week_contains_week: "str_in ''next week'' s \<Longrightarrow> str_in ''week'' s"
proof -
  assume "str_in ''next week'' s"
  then obtain p q where "s = p @ ''next week'' @ q"
    by (auto simp: str_in_iff)
  then have "s = (p @ ''next '') @ ''week'' @ q"
    by simp
  then show ?thesis
    unfolding str_in_iff by blast
qed

lemma extract_time_context_never_14: "extract_time_context message \<noteq> 14"
  using next_week_contains_week [of "lower message"]
  by (auto simp: extract_time_context_def any_in_def Let_def)


section \<open>The overlap tail and the size of chunks\<close>

lemma slice_from_last: "0 < n \<Longrightarrow> slice_from xs (- int n) = drop (length xs - n) xs"
proof -
  assume "0 < n"
  moreover have "nat (int (length xs) - int n) = length xs - n"
    by arith
  ultimately show ?thesis
    by (simp add: slice_from_def)
qed

lemma slice_from_10: "slice_from xs (- 10) = drop (length xs - 10) xs"
  using slice_from_last [of 10 xs] by simp

text \<open>
  For a positive overlap the tail is the last \<open>\<lceil>overlap/5\<rceil>\<close> words (all words if there are
  fewer); it is the specified tail when 5 divides the overlap, as for the overlap 150 of
  \<open>add_document\<close>. For the overlap 0 the slice \<open>words[-0:]\<close> is the whole list.
\<close>

lemma overlap_tail_positive:
  assumes "0 < overlap"
  shows "overlap_tail current_chunk overlap =
     drop (length (py_split current_chunk) - nat (- ((- overlap) div 5))) (py_split current_chunk)"
proof -
  let ?ws = "py_split current_chunk"
  let ?c = "- ((- overlap) div 5)"
  from assms have c: "0 < ?c" "overlap div 5 \<le> ?c"
    by arith+
  have n: "nat (int (length ?ws) + (- overlap) div 5) = length ?ws - nat ?c"
    using c by arith
  show ?thesis
  proof (cases "int (length ?ws) > overlap div 5")
    case True
    with c n show ?thesis
      by (simp add: overlap_tail_def slice_from_def Let_def)
  next
    case False
    with c have "length ?ws - nat ?c = 0"
      by arith
    with False show ?thesis
      by (simp add: overlap_tail_def Let_def)
  qed
qed

lemma overlap_tail_multiple_of_5:
  assumes "0 < n"
  shows "overlap_tail current_chunk (5 * int n) = spec_overlap_tail current_chunk (5 * int n)"
proof -
  have "nat (- ((- (5 * int n)) div 5)) = n"
    by simp
  with overlap_tail_positive [of "5 * int n" current_chunk] assms show ?thesis
    by (simp add: spec_overlap_tail_def Let_def)
qed

lemma overlap_tail_default: "overlap_tail current_chunk 150 = spec_overlap_tail current_chunk 150"
  using overlap_tail_multiple_of_5 [of 30 current_chunk] by simp

lemma overlap_tail_zero: "overlap_tail current_chunk 0 = py_split current_chunk"
  by (simp add: overlap_tail_def slice_from_def Let_def)

lemma chunk_text_other_overlaps:
  "chunk_text ''aa bb. cc dd.'' 8 0 = [''aa bb.'', ''aa bb. cc dd.'']"
  "chunk_text ''aa bb. cc dd.'' 8 7 = [''aa bb.'', ''aa bb. cc dd.'']"
  "chunk_text ''aa bb. cc dd.'' 8 5 = [''aa bb.'', ''bb. cc dd.'']"
  by (simp_all add: chunk_eval)

text \<open>
  C5: for every text, chunk size and overlap (also an overlap below 5, where
  \<open>overlap/5\<close> is 0), a closed chunk seeds the new buffer with exactly the last
  \<open>overlap/5\<close> words of the closed buffer, or all of them if it has fewer, joined with
  single spaces and put before the next sentence. With the overlap 3 the specified tail of
  the buffer "aa bb." is empty; the source slices with \<open>(-3)//5 = -1\<close> and seeds the next
  buffer with the word "bb.".
\<close>

theorem overlap_tail_small_overlap:
  "spec_overlap_tail ''aa bb.'' 3 = []
   \<and> overlap_tail ''aa bb.'' 3 = [''bb.'']
   \<and> chunk_text ''aa bb. cc dd.'' 8 3 = [''aa bb.'', ''bb. cc dd.'']"
  by (simp add: chunk_eval spec_overlap_tail_def)

text \<open>
  What the loop does guarantee: every chunk is a stripped buffer whose body is one sentence
  of the text or has at most \<open>chunk_size + 1\<close> characters.
\<close>

lemma chunk_trace_nonempty: "chunk_trace chunk_size overlap sentences current_chunk body \<noteq> []"
  by (induction sentences arbitrary: current_chunk body) simp_all

lemma chunk_loop_trace:
  "chunk_loop chunk_size overlap sentences chunks current_chunk =
     (chunks @ map strip (butlast (map fst (chunk_trace chunk_size overlap sentences current_chunk body))),
      last (map fst (chunk_trace chunk_size overlap sentences current_chunk body)))"
proof (induction sentences arbitrary: chunks current_chunk body)
  case Nil
  show ?case by simp
next
  case (Cons sentence rest)
  show ?case
  proof (cases "int (length current_chunk) + int (length sentence) > chunk_size \<and> current_chunk \<noteq> []")
    case True
    then show ?thesis
      by (simp add: Cons.IH [where body = sentence] chunk_trace_nonempty)
  next
    case False
    show ?thesis
    proof (cases "current_chunk = []")
      case True
      with False show ?thesis
        by (simp add: Cons.IH [where body = sentence])
    next
      case ne: False
      with False show ?thesis
        by (simp add: Cons.IH [where body = "body @ '' '' @ sentence"])
    qed
  qed
qed

lemma chunk_trace_bound:
  assumes "\<exists>p. current_chunk = p @ body"
    and "body \<in> S \<or> int (length body) \<le> chunk_size + 1"
    and "set sentences \<subseteq> S"
    and "(c, b) \<in> set (chunk_trace chunk_size overlap sentences current_chunk body)"
  shows "(\<exists>p. c = p @ b) \<and> (b \<in> S \<or> int (length b) \<le> chunk_size + 1)"
  using assms
proof (induction sentences arbitrary: current_chunk body)
  case Nil
  then show ?case by simp
next
  case (Cons sentence rest)
  from Cons.prems(3) have S: "sentence \<in> S" "set rest \<subseteq> S"
    by simp_all
  show ?case
  proof (cases "int (length current_chunk) + int (length sentence) > chunk_size \<and> current_chunk \<noteq> []")
    case True
    with Cons.prems(4) consider "(c, b) = (current_chunk, body)"
      | "(c, b) \<in> set (chunk_trace chunk_size overlap rest
               (join_space (overlap_tail current_chunk overlap) @ '' '' @ sentence) sentence)"
      by auto
    then show ?thesis
    proof cases
      case 1
      with Cons.prems(1,2) show ?thesis by simp
    next
      case 2
      have "\<exists>p. join_space (overlap_tail current_chunk overlap) @ '' '' @ sentence = p @ sentence"
        by (metis append.assoc)
      from Cons.IH [OF this _ S(2) 2] S(1) show ?thesis by simp
    qed
  next
    case False
    show ?thesis
    proof (cases "current_chunk = []")
      case True
      with False Cons.prems(4) have m: "(c, b) \<in> set (chunk_trace chunk_size overlap rest sentence sentence)"
        by simp
      have "\<exists>p. sentence = p @ sentence" by simp
      from Cons.IH [OF this _ S(2) m] S(1) show ?thesis by simp
    next
      case ne: False
      with False Cons.prems(4) have m: "(c, b) \<in> set (chunk_trace chunk_size overlap rest
          (current_chunk @ '' '' @ sentence) (body @ '' '' @ sentence))"
        by simp
      from Cons.prems(1) obtain p where p: "current_chunk = p @ body" by blast
      then have 1: "\<exists>q. current_chunk @ '' '' @ sentence = q @ body @ '' '' @ sentence"
        by simp
      from False ne have "int (length current_chunk) + int (length sentence) \<le> chunk_size"
        by simp
      with p have 2: "int (length (body @ '' '' @ sentence)) \<le> chunk_size + 1"
        by simp
      from Cons.IH [OF 1 _ S(2) m] 2 show ?thesis by simp
    qed
  qed
qed

lemma re_split_nonempty: "re_split piece s \<noteq> []"
  by (induction piece s rule: re_split.induct) simp_all

lemma chunk_text_trace:
  "chunk_text text chunk_size overlap =
     (let buffers = map fst (chunk_trace chunk_size overlap (re_split [] text) [] []) in
      if strip (last buffers) \<noteq> [] then map strip (butlast buffers) @ [strip (last buffers)]
      else map strip (butlast buffers))"
  unfolding chunk_text_def Let_def chunk_loop_trace [where body = "[]"]
  by simp


lemma chunk_text_from_trace:
  assumes "chunk \<in> set (chunk_text text chunk_size overlap)"
  shows "\<exists>c b. (c, b) \<in> set (chunk_trace chunk_size overlap (re_split [] text) [] [])
           \<and> chunk = strip c"
proof -
  let ?B = "map fst (chunk_trace chunk_size overlap (re_split [] text) [] [])"
  have ne: "?B \<noteq> []"
    by (simp add: chunk_trace_nonempty)
  from assms have "chunk \<in> set (map strip (butlast ?B)) \<or> chunk = strip (last ?B)"
    unfolding chunk_text_trace Let_def by (auto split: if_splits)
  then have "chunk \<in> strip ` set ?B"
  proof
    assume "chunk \<in> set (map strip (butlast ?B))"
    then obtain c where "c \<in> set (butlast ?B)" and "chunk = strip c"
      by auto
    then show ?thesis
      by (blast dest: in_set_butlastD)
  next
    assume "chunk = strip (last ?B)"
    with ne show ?thesis
      by (blast intro: last_in_set)
  qed
  then show ?thesis
    by auto
qed

lemma chunk_text_size:
  assumes "chunk \<in> set (chunk_text text chunk_size overlap)"
  shows "\<exists>prefix body. (prefix @ body, body)
             \<in> set (chunk_trace chunk_size overlap (re_split [] text) [] [])
           \<and> chunk = strip (prefix @ body)
           \<and> (body \<in> set (re_split [] text) \<or> int (length body) \<le> chunk_size + 1)"
proof -
  from chunk_text_from_trace [OF assms] obtain c b
    where m: "(c, b) \<in> set (chunk_trace chunk_size overlap (re_split [] text) [] [])"
      and c: "chunk = strip c"
    by blast
  obtain sentence rest where ss: "re_split [] text = sentence # rest"
    using re_split_nonempty [of "[]" "text"] by (cases "re_split [] text") auto
  with m have m': "(c, b) \<in> set (chunk_trace chunk_size overlap rest sentence sentence)"
    by simp
  have 1: "\<exists>p. sentence = p @ sentence"
    by simp
  have 2: "sentence \<in> set (re_split [] text) \<or> int (length sentence) \<le> chunk_size + 1"
    by (simp add: ss)
  have 3: "set rest \<subseteq> set (re_split [] text)"
    by (auto simp: ss)
  from chunk_trace_bound [OF 1 2 3 m'] obtain p where p: "c = p @ b"
    and b: "b \<in> set (re_split [] text) \<or> int (length b) \<le> chunk_size + 1"
    by blast
  from m c p have "(p @ b, b) \<in> set (chunk_trace chunk_size overlap (re_split [] text) [] [])"
    and "chunk = strip (p @ b)"
    by simp_all
  with b show ?thesis
    by blast
qed

text \<open>
  C6: every chunk, its overlap prefix set aside, has at most \<open>chunk_size\<close> characters,
  unless it is one sentence that alone is longer. The test of line 113 adds the two lengths
  without the joining blank: the sentences "ab." and "c." pass it for the chunk size 5 and
  are emitted as one chunk of 6 characters, which has no overlap prefix.
\<close>

theorem chunk_exceeds_chunk_size:
  "re_split [] ''ab. c.'' = [''ab.'', ''c.'']
   \<and> chunk_text ''ab. c.'' 5 150 = [''ab. c.'']
   \<and> int (length ''ab. c.'') = 6"
  by (simp add: chunk_eval)


section \<open>The search loop\<close>

lemma collect_results_scores:
  assumes "collect_results P s min_score hits acc = Inr rs"
    and "\<forall>r \<in> set acc. min_score < relevance_score r"
  shows "\<forall>r \<in> set rs. min_score < relevance_score r"
  using assms
proof (induction hits arbitrary: acc)
  case Nil
  then show ?case by simp
next
  case (Cons h hits)
  obtain score idx where h: "h = (score, idx)" by (cases h)
  from Cons.prems show ?case
    unfolding h
    by (auto split: if_splits sum.splits option.splits prod.splits dest!: Cons.IH)
qed

lemma collect_results_step:
  assumes "collect_results P s min_score ((score, idx) # hits) acc = Inr rs"
  shows "collect_results P s min_score hits acc = Inr rs
     \<or> (\<exists>r. relevance_score r = score
            \<and> collect_results P s min_score hits (acc @ [r]) = Inr rs)"
proof -
  have ex: "\<exists>r. relevance_score r = score \<and> collect_results P s min_score hits (acc @ [r]) = Inr rs"
    if "collect_results P s min_score hits (acc @ [r]) = Inr rs" "relevance_score r = score" for r
    using that by blast
  from assms show ?thesis
    by (auto split: if_splits sum.splits option.splits prod.splits intro!: ex)
qed

text \<open>
  The loop keeps the order of the rows it is given: the scores of the results are a
  subsequence of the scores of the rows.
\<close>

lemma collect_results_extends:
  assumes "collect_results P s min_score hits acc = Inr rs"
  shows "\<exists>new. rs = acc @ new \<and> subseq (map relevance_score new) (map fst hits)"
  using assms
proof (induction hits arbitrary: acc)
  case Nil
  then show ?case by simp
next
  case (Cons h hits)
  obtain score idx where h: "h = (score, idx)" by (cases h)
  show ?case
  proof (cases "collect_results P s min_score hits acc = Inr rs")
    case True
    from Cons.IH [OF True] show ?thesis
      by (auto simp: h)
  next
    case False
    with Cons.prems have "\<exists>r. relevance_score r = score
        \<and> collect_results P s min_score hits (acc @ [r]) = Inr rs"
      unfolding h using collect_results_step by blast
    then obtain r where r: "relevance_score r = score"
      and step: "collect_results P s min_score hits (acc @ [r]) = Inr rs"
      by blast
    from Cons.IH [OF step] obtain new where "rs = (acc @ [r]) @ new"
      and "subseq (map relevance_score new) (map fst hits)"
      by blast
    with r have "rs = acc @ (r # new)
        \<and> subseq (map relevance_score (r # new)) (map fst (h # hits))"
      by (simp add: h)
    then show ?thesis by blast
  qed
qed

lemma search_results_order:
  assumes "search_results P s query top_k min_score = Inr rs"
  shows "subseq (map relevance_score rs) (map fst (search_hits P s query top_k))"
  using collect_results_extends [of P s min_score "search_hits P s query top_k" "[]" rs] assms
  by (simp add: search_results_def)

lemma search_results_length:
  assumes "search_results P s query top_k min_score = Inr rs"
  shows "length rs \<le> length (search_hits P s query top_k)"
  using search_results_order [OF assms]
  by (metis length_map list_emb_length)

lemma position_above_range_skipped:
  assumes "int (length (document_chunks s)) \<le> idx"
  shows "collect_results P s min_score ((score, idx) # hits) acc
         = collect_results P s min_score hits acc"
  using assms by simp

lemma position_below_range_raises:
  assumes "idx < - int (length (document_chunks s))" and "min_score < score"
  shows "collect_results P s min_score ((score, idx) # hits) acc = Inl IndexError"
  using assms by (simp add: list_index_def)

lemma demo_search_cat:
  "search_knowledge_base demo_ports (7::nat) (demo_agent [cat_row]) ''cat?'' 2 (2/10)
   = Inr (format_results demo_ports [cat_result 1],
          (demo_agent [cat_row])
            \<lparr>recent_knowledge_searches :=
               [\<lparr>info_query = ''cat?'', info_results = [cat_result 1], info_timestamp = 7\<rparr>]\<rparr>)"
  by (simp add: search_knowledge_base_def demo_eval slice_from_def)

lemma demo_search_dog:
  "search_knowledge_base demo_ports (7::nat) (demo_agent [cat_row]) ''dog?'' 2 (2/10)
   = Inr (no_match_message, demo_agent [cat_row])"
  by (simp add: search_knowledge_base_def demo_eval)

text \<open>
  C3: for every query, \<open>top_k\<close> and \<open>min_score\<close>, every result of the search has a
  relevance score strictly greater than \<open>min_score\<close>.
\<close>

theorem search_threshold:
  assumes "search_results P s query top_k min_score = Inr rs" and "r \<in> set rs"
  shows "min_score < relevance_score r"
  using collect_results_scores [of P s min_score "search_hits P s query top_k" "[]" rs] assms
  by (simp add: search_results_def)

theorem search_threshold_witness:
  "search_results demo_ports (demo_agent [cat_row, dog_row]) ''cat?'' 2 (2/10) = Inr [cat_result 1]
   \<and> cat_result 1 \<in> set [cat_result 1]
   \<and> 2/10 < relevance_score (cat_result 1)"
proof -
  have a: "search_results demo_ports (demo_agent [cat_row, dog_row]) ''cat?'' 2 (2/10)
      = Inr [cat_result 1]"
    by (simp add: demo_eval)
  have b: "cat_result 1 \<in> set [cat_result 1]"
    by simp
  from search_threshold [OF a b] a b show ?thesis
    by simp
qed


section \<open>Signals, padding rows, the log and the frame of a search\<close>

lemma format_results_not_message:
  "format_results P rs \<noteq> empty_message" "format_results P rs \<noteq> no_match_message"
  by (simp_all add: format_results_def empty_message_def no_match_message_def)

lemma messages_differ: "empty_message \<noteq> no_match_message"
  by (simp add: empty_message_def no_match_message_def)

lemma build_empty_store:
  "documents s = [] \<Longrightarrow> build_vector_index P s = s\<lparr>document_chunks := []\<rparr>"
  by (simp add: build_vector_index_def)

text \<open>
  C7: a search on an empty or uninitialised index is no error; it returns the
  empty-knowledge-base message, which differs from the no-relevant-information message of
  a search without surviving result, so that the reply tells the two situations apart; and
  the index built from an empty store can be searched and yields nothing.
\<close>

theorem empty_index_signal:
  "(vector_index s = None \<or> document_chunks s = []
      \<longrightarrow> search_knowledge_base P now s query top_k min_score = Inr (empty_message, s))
   \<and> (search_knowledge_base P now s query top_k min_score = Inr (reply, s')
      \<longrightarrow> (reply = empty_message \<longleftrightarrow> vector_index s = None \<or> document_chunks s = [])
        \<and> (reply = no_match_message \<longleftrightarrow>
             vector_index s \<noteq> None \<and> document_chunks s \<noteq> []
             \<and> search_results P s query top_k min_score = Inr []))
   \<and> empty_message \<noteq> no_match_message
   \<and> (documents s = []
      \<longrightarrow> document_chunks (build_vector_index P s) = []
        \<and> search_knowledge_base P now (build_vector_index P s) query top_k min_score
            = Inr (empty_message, build_vector_index P s))"
proof -
  have 1: "vector_index s = None \<or> document_chunks s = []
      \<longrightarrow> search_knowledge_base P now s query top_k min_score = Inr (empty_message, s)"
    by (auto simp: search_knowledge_base_def)
  have 2: "search_knowledge_base P now s query top_k min_score = Inr (reply, s')
      \<longrightarrow> (reply = empty_message \<longleftrightarrow> vector_index s = None \<or> document_chunks s = [])
        \<and> (reply = no_match_message \<longleftrightarrow>
             vector_index s \<noteq> None \<and> document_chunks s \<noteq> []
             \<and> search_results P s query top_k min_score = Inr [])"
    using format_results_not_message [of P] messages_differ
    by (auto simp: search_knowledge_base_def split: if_splits sum.splits)
  have 3: "documents s = []
      \<longrightarrow> document_chunks (build_vector_index P s) = []
        \<and> search_knowledge_base P now (build_vector_index P s) query top_k min_score
            = Inr (empty_message, build_vector_index P s)"
    by (simp add: build_empty_store search_knowledge_base_def)
  from 1 2 3 messages_differ show ?thesis
    by blast
qed

theorem empty_index_signal_witness:
  "vector_index (demo_agent [] :: (real list, string, nat) agent) = None
   \<and> documents (demo_agent [] :: (real list, string, nat) agent) = []
   \<and> search_knowledge_base demo_ports (7::nat) (demo_agent []) ''cat?'' 2 (2/10)
       = Inr (empty_message, demo_agent [])
   \<and> search_knowledge_base demo_ports (7::nat)
        (build_vector_index demo_ports (demo_agent [])) ''cat?'' 2 (2/10)
       = Inr (empty_message, build_vector_index demo_ports (demo_agent []))
   \<and> search_knowledge_base demo_ports (7::nat) (demo_agent [cat_row]) ''dog?'' 2 (2/10)
       = Inr (no_match_message, demo_agent [cat_row])
   \<and> vector_index (demo_agent [cat_row] :: (real list, string, nat) agent) \<noteq> None
   \<and> document_chunks (demo_agent [cat_row] :: (real list, string, nat) agent) \<noteq> []
   \<and> search_results demo_ports (demo_agent [cat_row] :: (real list, string, nat) agent)
        ''dog?'' 2 (2/10) = Inr []"
proof -
  have e: "vector_index (demo_agent [] :: (real list, string, nat) agent) = None"
    "documents (demo_agent [] :: (real list, string, nat) agent) = []"
    by (simp_all add: demo_eval)
  note a = empty_index_signal [of "demo_agent [] :: (real list, string, nat) agent"
      demo_ports 7 "''cat?''" 2 "2/10" empty_message "demo_agent []"]
  note b = empty_index_signal [of "demo_agent [cat_row] :: (real list, string, nat) agent"
      demo_ports 7 "''dog?''" 2 "2/10" no_match_message "demo_agent [cat_row]"]
  from e a b demo_search_dog show ?thesis
    by blast
qed

text \<open>
  C8: for every search, a returned position that does not map to a live chunk, the padding
  positions of a search with \<open>top_k\<close> above the index size included, is skipped: it adds no
  result and raises no error. The test of line 172 bounds the position from above only.
  On an index of one chunk a search with \<open>top_k = 2\<close> gets the padding row with position
  \<open>-1\<close>; with a \<open>min_score\<close> below the padding score the row passes the test,
  \<open>document_chunks[-1]\<close> is the last chunk, and a second result is built from it.
\<close>

theorem padding_position_not_skipped:
  "document_chunks (demo_agent [cat_row]) = [(1, ''the cat sat.'')]
   \<and> search_hits demo_ports (demo_agent [cat_row]) ''cat?'' 2 = [(1, 0), (float32_lowest, - 1)]
   \<and> search_results demo_ports (demo_agent [cat_row]) ''cat?'' 2 (- (10 ^ 39))
       = Inr [cat_result 1, cat_result float32_lowest]"
  by (simp add: demo_eval)

text \<open>
  C2: a search on an index built over N chunks returns at most \<open>min(k, N)\<close> results, in
  strictly descending order of score with ties in build order, all scores within [-1, 1],
  and all entries above the threshold when \<open>k\<close> exceeds the index size. Order and scores
  are those of the rows that the index search returns; the loop keeps them
  (\<open>search_results_order\<close>). The bound on the number of results fails on the padding rows:
  on an index of two chunks a search with \<open>k = 3\<close> and a \<open>min_score\<close> below the padding
  score returns three results, the last chunk twice.
\<close>

theorem padding_rows_exceed_index_size:
  "length (document_chunks (demo_agent [cat_row, dog_row])) = 2
   \<and> search_hits demo_ports (demo_agent [cat_row, dog_row]) ''cat?'' 3
       = [(1, 0), (0, 1), (float32_lowest, - 1)]
   \<and> search_results demo_ports (demo_agent [cat_row, dog_row]) ''cat?'' 3 (- (10 ^ 39))
       = Inr [cat_result 1, dog_result 0, dog_result float32_lowest]"
  by (simp add: demo_eval)

lemma add_document_log:
  "recent_knowledge_searches (add_document P s title content source metadata_json)
   = recent_knowledge_searches s"
  by (simp add: add_document_def build_vector_index_def Let_def)

lemma init_agent_log: "recent_knowledge_searches (init_agent P rows) = []"
  by (simp add: init_agent_def build_vector_index_def Let_def)

lemma search_log_bounded:
  assumes "search_knowledge_base P now s query top_k min_score = Inr (reply, s')"
    and "length (recent_knowledge_searches s) \<le> 10"
  shows "length (recent_knowledge_searches s') \<le> 10"
  using assms
  by (auto simp: search_knowledge_base_def slice_from_10 split: if_splits sum.splits)

lemma reachable_log_bounded: "reachable P s \<Longrightarrow> length (recent_knowledge_searches s) \<le> 10"
proof (induction rule: reachable.induct)
  case (init rows)
  show ?case by (simp add: init_agent_log)
next
  case (ingest s title content source metadata_json)
  then show ?case by (simp add: add_document_log)
next
  case (search s now query top_k min_score reply s')
  from search.hyps(2) search.IH show ?case by (rule search_log_bounded)
qed

text \<open>
  C9: after every search the log of recent searches holds at most 10 entries; the search
  appends an entry exactly when it has at least one surviving result; and the entries
  beyond 10 are dropped from the old end, the 10 most recent staying in order.
\<close>

theorem recent_searches_log:
  assumes "reachable P s"
    and "search_knowledge_base P now s query top_k min_score = Inr (reply, s')"
  shows "length (recent_knowledge_searches s') \<le> 10
    \<and> (\<forall>rs. vector_index s \<noteq> None \<and> document_chunks s \<noteq> []
            \<and> search_results P s query top_k min_score = Inr rs \<and> rs \<noteq> []
          \<longrightarrow> recent_knowledge_searches s'
              = drop (length (recent_knowledge_searches s) + 1 - 10)
                  (recent_knowledge_searches s
                   @ [\<lparr>info_query = query, info_results = rs, info_timestamp = now\<rparr>]))
    \<and> (vector_index s = None \<or> document_chunks s = []
          \<or> search_results P s query top_k min_score = Inr []
          \<longrightarrow> recent_knowledge_searches s' = recent_knowledge_searches s)"
proof -
  from assms have "reachable P s'"
    by (rule reachable.search)
  then have "length (recent_knowledge_searches s') \<le> 10"
    by (rule reachable_log_bounded)
  moreover from assms(2) have
    "\<forall>rs. vector_index s \<noteq> None \<and> document_chunks s \<noteq> []
            \<and> search_results P s query top_k min_score = Inr rs \<and> rs \<noteq> []
          \<longrightarrow> recent_knowledge_searches s'
              = drop (length (recent_knowledge_searches s) + 1 - 10)
                  (recent_knowledge_searches s
                   @ [\<lparr>info_query = query, info_results = rs, info_timestamp = now\<rparr>])"
    by (auto simp: search_knowledge_base_def slice_from_10 split: if_splits sum.splits)
  moreover from assms(2) have
    "vector_index s = None \<or> document_chunks s = []
          \<or> search_results P s query top_k min_score = Inr []
          \<longrightarrow> recent_knowledge_searches s' = recent_knowledge_searches s"
    by (auto simp: search_knowledge_base_def split: if_splits sum.splits)
  ultimately show ?thesis
    by blast
qed

theorem recent_searches_log_witness:
  "reachable demo_ports (demo_agent [cat_row] :: (real list, string, nat) agent)
   \<and> search_knowledge_base demo_ports (7::nat) (demo_agent [cat_row]) ''cat?'' 2 (2/10)
       = Inr (format_results demo_ports [cat_result 1],
              (demo_agent [cat_row])
                \<lparr>recent_knowledge_searches :=
                   [\<lparr>info_query = ''cat?'', info_results = [cat_result 1],
                     info_timestamp = 7\<rparr>]\<rparr>)
   \<and> length (recent_knowledge_searches
        ((demo_agent [cat_row] :: (real list, string, nat) agent)
           \<lparr>recent_knowledge_searches :=
              [\<lparr>info_query = ''cat?'', info_results = [cat_result 1],
                info_timestamp = 7\<rparr>]\<rparr>)) \<le> 10"
proof -
  have r: "reachable demo_ports (demo_agent [cat_row] :: (real list, string, nat) agent)"
    unfolding demo_agent_def by (rule reachable.init)
  from recent_searches_log [OF r demo_search_cat] r demo_search_cat show ?thesis
    by blast
qed

text \<open>
  C10: a search changes no state but the log of recent searches: the documents table, the
  vector index and the retained chunk list after the call are those before it. (A call
  that raises leaves before the log is written.)
\<close>

theorem search_frame:
  assumes "search_knowledge_base P now s query top_k min_score = Inr (reply, s')"
  shows "s' = s\<lparr>recent_knowledge_searches := recent_knowledge_searches s'\<rparr>
     \<and> documents s' = documents s \<and> vector_index s' = vector_index s
     \<and> document_chunks s' = document_chunks s"
  using assms
  by (auto simp: search_knowledge_base_def split: if_splits sum.splits)

theorem search_frame_witness:
  "search_knowledge_base demo_ports (7::nat) (demo_agent [cat_row]) ''cat?'' 2 (2/10)
     = Inr (format_results demo_ports [cat_result 1],
            (demo_agent [cat_row])
              \<lparr>recent_knowledge_searches :=
                 [\<lparr>info_query = ''cat?'', info_results = [cat_result 1],
                   info_timestamp = 7\<rparr>]\<rparr>)
   \<and> documents ((demo_agent [cat_row] :: (real list, string, nat) agent)
              \<lparr>recent_knowledge_searches :=
                 [\<lparr>info_query = ''cat?'', info_results = [cat_result 1],
                   info_timestamp = 7\<rparr>]\<rparr>)
       = documents (demo_agent [cat_row] :: (real list, string, nat) agent)"
  using search_frame [OF demo_search_cat] demo_search_cat by blast

end
